theory Spec2Isabelle
  imports Main "HOL-Library.Sublist"
begin

section \<open>Values, errors and console output\<close>

text \<open>
  The \<open>version\<close> attribute of a \<open>SafeMasterCopy\<close> object is a Python attribute: the
  source assigns a \<open>str\<close> to it and, in the drift branch, also an \<open>int\<close>. Python's
  \<open>!=\<close> between an \<open>int\<close> and a \<open>str\<close> is always true, as is \<open>\<noteq>\<close> between the two
  constructors.
\<close>

datatype pyval = PyStr string | PyInt int

text \<open>The only failure the run can meet here: the chain client cannot be reached.\<close>

datatype error = ConnectivityError

text \<open>\<open>IntervalSchedule.SECONDS\<close>, \<open>MINUTES\<close>, \<open>HOURS\<close>, \<open>DAYS\<close>.\<close>

datatype period = SECONDS | MINUTES | HOURS | DAYS

text \<open>\<open>self.style.SUCCESS\<close> and \<open>self.style.WARNING\<close>.\<close>

datatype style = SUCCESS | WARNING

text \<open>One constructor for each text \<open>handle\<close> writes to \<open>self.stdout\<close>.\<close>

datatype message =
    Removing_old_tasks
  | Old_tasks_were_removed
  | Created_Periodic_Task string
  | Task_was_already_created string
  | Setting_up_Safe_Contract_Addresses
  | Setting_up_safe_addresses string
  | Setting_up_proxy_factory_addresses string
  | Cannot_detect_a_valid_ethereum_network

type_synonym stdout = "(style \<times> message) list"

section \<open>Declarations and stored rows\<close>

text \<open>The dataclass \<open>CeleryTaskConfiguration\<close>.\<close>

record CeleryTaskConfiguration =
  name :: string
  description :: string
  interval :: int
  period :: period
  enabled :: bool

text \<open>
  Modelled from the spec: the models \<open>IntervalSchedule\<close> and \<open>PeriodicTask\<close> are imported,
  not declared in the source file. A row has the fields the source reads and writes,
  which are the spec's StoredRecurrenceSchedule \<open>{intervalValue, intervalUnit}\<close> and
  StoredTask \<open>{key, label, schedule, enabled}\<close>: a schedule row is \<open>every\<close> and \<open>period\<close>; a
  task row, stored under its key \<open>task\<close>, is \<open>name\<close>, \<open>interval\<close> (the schedule row it
  refers to) and \<open>enabled\<close>. The fields of the stored rows carry a prefix here, the
  declaration's fields keep the plain names.
\<close>

record IntervalSchedule =
  every :: int
  is_period :: period

record PeriodicTask =
  pt_name :: string
  pt_interval :: IntervalSchedule
  pt_enabled :: bool

text \<open>
  Modelled from the spec: the models \<open>ProxyFactory\<close> and \<open>SafeMasterCopy\<close> are imported,
  not declared in the source file. A row has the fields the source names, which are
  the spec's StoredContractRegistryEntry: stored under its \<open>address\<close>, a proxy factory
  has \<open>initial_block_number\<close> and \<open>tx_block_number\<close> (the last synced block), a master
  copy has \<open>version\<close> and \<open>l2\<close> as well.
\<close>

record ProxyFactory =
  initial_block_number :: int
  tx_block_number :: int

record SafeMasterCopy = ProxyFactory +
  version :: pyval
  l2 :: bool

text \<open>
  Modelled from the spec: the persistent store. The schedule rows are "deduplicated",
  so they are a set; the tasks are keyed by \<open>task\<close> ("at most one stored record per
  name"), the two registries by \<open>address\<close> ("unique key within its registry type"), so
  they are maps.
\<close>

record store =
  interval_schedules :: "IntervalSchedule set"
  periodic_tasks :: "string \<rightharpoonup> PeriodicTask"
  safe_master_copies :: "string \<rightharpoonup> SafeMasterCopy"
  proxy_factories :: "string \<rightharpoonup> ProxyFactory"

section \<open>The store's operations\<close>

text \<open>
  Modelled from the spec: the persistent store collaborator is not part of the source
  file (it is the ORM behind \<open>objects.get_or_create\<close>, \<open>filter(...).delete()\<close> and
  \<open>save\<close>). The spec gives it as "keyed get-or-create and keyed update for three record
  kinds, plus bulk delete-by-key-prefix for Task records": \<open>get_or_create\<close> returns the
  row stored under the key with \<open>created = False\<close> and leaves the table alone, or stores
  the defaults under the key and returns them with \<open>created = True\<close>.
\<close>

definition get_or_create :: "('k \<rightharpoonup> 'v) \<Rightarrow> 'k \<Rightarrow> 'v \<Rightarrow> ('v \<times> bool) \<times> ('k \<rightharpoonup> 'v)" where
  "get_or_create table k defaults =
     (case table k of
        Some row \<Rightarrow> ((row, False), table)
      | None \<Rightarrow> ((defaults, True), table(k \<mapsto> defaults)))"

text \<open>
  Modelled from the spec: get-or-create of a recurrence schedule "keyed by
  \<open>(intervalValue, intervalUnit)\<close>", the stored schedules being "deduplicated": the row
  is the pair itself, and it is created when the set does not hold it yet.
\<close>

definition get_or_create_schedule ::
  "IntervalSchedule set \<Rightarrow> int \<Rightarrow> period \<Rightarrow> (IntervalSchedule \<times> bool) \<times> IntervalSchedule set" where
  "get_or_create_schedule table e p =
     (let row = \<lparr>every = e, is_period = p\<rparr>
      in ((row, row \<notin> table), insert row table))"

text \<open>
  Modelled from the spec: "bulk delete-by-key-prefix for Task records", the
  \<open>filter(task__startswith=...).delete()\<close> of the source.
\<close>

definition startswith :: "string \<Rightarrow> string \<Rightarrow> bool" where
  "startswith s p = prefix p s"

definition endswith :: "string \<Rightarrow> string \<Rightarrow> bool" where
  "endswith s p = suffix p s"

definition delete_startswith :: "string \<Rightarrow> (string \<rightharpoonup> 'v) \<Rightarrow> (string \<rightharpoonup> 'v)" where
  "delete_startswith p table = (\<lambda>k. if startswith k p then None else table k)"

text \<open>
  Modelled from the spec: the keyed update, \<open>periodic_task.save()\<close> of the source: the
  row stored under the key is replaced by the object's fields.
\<close>

definition save :: "('k \<rightharpoonup> 'v) \<Rightarrow> 'k \<Rightarrow> 'v \<Rightarrow> ('k \<rightharpoonup> 'v)" where
  "save table k obj = table(k \<mapsto> obj)"

text \<open>
  Modelled from the spec: the keyed update restricted to two fields,
  \<open>save(update_fields=["initial_block_number", "version"])\<close> of the source: only these
  two columns of the stored row are written, from the object. A key with no row does
  not occur: the object always comes from \<open>get_or_create\<close> on the same key.
\<close>

definition save_update_fields ::
  "(string \<rightharpoonup> SafeMasterCopy) \<Rightarrow> string \<Rightarrow> SafeMasterCopy \<Rightarrow> (string \<rightharpoonup> SafeMasterCopy)" where
  "save_update_fields table k obj =
     (case table k of
        Some row \<Rightarrow>
          table(k \<mapsto> row\<lparr>initial_block_number := initial_block_number obj,
                          version := version obj\<rparr>)
      | None \<Rightarrow> table)"

section \<open>\<open>CeleryTaskConfiguration.create_task\<close>\<close>

definition create_task :: "CeleryTaskConfiguration \<Rightarrow> store \<Rightarrow> (PeriodicTask \<times> bool) \<times> store" where
  "create_task self s =
     (let ((interval_schedule, _), schedules) =
            get_or_create_schedule (interval_schedules s) (interval self) (period self);
          s1 = s\<lparr>interval_schedules := schedules\<rparr>;
          ((periodic_task, created), tasks) =
            get_or_create (periodic_tasks s1) (name self)
              \<lparr>pt_name = description self,
               pt_interval = interval_schedule,
               pt_enabled = enabled self\<rparr>;
          s2 = s1\<lparr>periodic_tasks := tasks\<rparr>
      in if \<not> created then
           (let periodic_task1 = periodic_task\<lparr>pt_name := description self\<rparr>;
                periodic_task2 = periodic_task1\<lparr>pt_interval := interval_schedule\<rparr>;
                periodic_task3 = periodic_task2\<lparr>pt_enabled := enabled self\<rparr>
            in ((periodic_task3, created),
                s2\<lparr>periodic_tasks := save (periodic_tasks s2) (name self) periodic_task3\<rparr>))
         else ((periodic_task, created), s2))"

section \<open>The declared configuration\<close>

text \<open>
  \<open>TASKS\<close>: the setting \<open>settings.ETH_L2_NETWORK\<close> is not in the source file and is a
  parameter.
\<close>

definition TASKS :: "bool \<Rightarrow> CeleryTaskConfiguration list" where
  "TASKS ETH_L2_NETWORK =
    [\<lparr>name = ''safe_transaction_service.history.tasks.check_reorgs_task'',
      description = ''Check Reorgs'', interval = 3, period = MINUTES, enabled = True\<rparr>,
     \<lparr>name = ''safe_transaction_service.history.tasks.check_sync_status_task'',
      description = ''Check Sync status'', interval = 10, period = MINUTES, enabled = True\<rparr>,
     \<lparr>name = ''safe_transaction_service.history.tasks.index_internal_txs_task'',
      description = ''Index Internal Txs'', interval = 13, period = SECONDS,
      enabled = (\<not> ETH_L2_NETWORK)\<rparr>,
     \<lparr>name = ''safe_transaction_service.history.tasks.index_safe_events_task'',
      description = ''Index Safe events (L2)'', interval = 13, period = SECONDS,
      enabled = ETH_L2_NETWORK\<rparr>,
     \<lparr>name = ''safe_transaction_service.history.tasks.index_new_proxies_task'',
      description = ''Index new Proxies'', interval = 15, period = SECONDS,
      enabled = ETH_L2_NETWORK\<rparr>,
     \<lparr>name = ''safe_transaction_service.history.tasks.index_erc20_events_task'',
      description = ''Index ERC20/721 Events'', interval = 14, period = SECONDS,
      enabled = True\<rparr>,
     \<lparr>name = ''safe_transaction_service.history.tasks.index_erc20_events_out_of_sync_task'',
      description = ''Index out of sync ERC20/ERC721 Events'', interval = 5, period = MINUTES,
      enabled = True\<rparr>,
     \<lparr>name = ''safe_transaction_service.history.tasks.reindex_last_hours_task'',
      description = ''Reindex master copies for the last hours'', interval = 110,
      period = MINUTES, enabled = True\<rparr>,
     \<lparr>name = ''safe_transaction_service.history.tasks.process_decoded_internal_txs_task'',
      description = ''Process Internal Txs'', interval = 20, period = MINUTES,
      enabled = True\<rparr>,
     \<lparr>name = ''safe_transaction_service.contracts.tasks.create_missing_contracts_with_metadata_task'',
      description = ''Index contract names and ABIs'', interval = 1, period = HOURS,
      enabled = True\<rparr>,
     \<lparr>name = ''safe_transaction_service.contracts.tasks.reindex_contracts_without_metadata_task'',
      description = ''Reindex contracts with missing names or ABIs'', interval = 7,
      period = DAYS, enabled = True\<rparr>,
     \<lparr>name = ''safe_transaction_service.tokens.tasks.fix_pool_tokens_task'',
      description = ''Fix Pool Token Names'', interval = 1, period = HOURS,
      enabled = True\<rparr>]"

definition MASTER_COPIES :: "string \<rightharpoonup> (string \<times> int \<times> string) list" where
  "MASTER_COPIES =
    [''7001'' \<mapsto>
       [(''0xd9Db270c1B5E3Bd161E8c8503c55cEABeE709552'', 9242, ''1.3.0''),
        (''0x3E5c63644E683549055b9Be8653de26E0B4CD36E'', 9239, ''1.3.0+L2'')]]"

definition PROXY_FACTORIES :: "string \<rightharpoonup> (string \<times> int) list" where
  "PROXY_FACTORIES =
    [''7001'' \<mapsto> [(''0xa6B71E26C5e0845f74c812102Ca7114b6a896AB2'', 9223)]]"

section \<open>\<open>Command\<close>\<close>

text \<open>
  \<open>_setup_safe_master_copies\<close>: the body of the loop, then the loop. The two
  assignments to \<open>safe_master_copy.version\<close> are those of the source, in its order.
\<close>

definition setup_safe_master_copy ::
  "string \<times> int \<times> string \<Rightarrow> (string \<rightharpoonup> SafeMasterCopy) \<Rightarrow> (string \<rightharpoonup> SafeMasterCopy)" where
  "setup_safe_master_copy decl table =
     (case decl of (address, initial_block, ver) \<Rightarrow>
        (let ((safe_master_copy, _), table1) =
               get_or_create table address
                 \<lparr>initial_block_number = initial_block,
                  tx_block_number = initial_block,
                  version = PyStr ver,
                  l2 = endswith ver ''+L2''\<rparr>
         in if version safe_master_copy \<noteq> PyStr ver
               \<or> initial_block_number safe_master_copy \<noteq> initial_block
            then
              (let safe_master_copy1 = safe_master_copy\<lparr>version := PyInt initial_block\<rparr>;
                   safe_master_copy2 = safe_master_copy1\<lparr>version := PyStr ver\<rparr>
               in save_update_fields table1 address safe_master_copy2)
            else table1))"

fun setup_safe_master_copies :: "(string \<times> int \<times> string) list \<Rightarrow> store \<Rightarrow> store" where
  "setup_safe_master_copies [] s = s"
| "setup_safe_master_copies (decl # rest) s =
     setup_safe_master_copies rest
       (s\<lparr>safe_master_copies := setup_safe_master_copy decl (safe_master_copies s)\<rparr>)"

text \<open>\<open>_setup_safe_proxy_factories\<close>: get-or-create only.\<close>

definition setup_safe_proxy_factory ::
  "string \<times> int \<Rightarrow> (string \<rightharpoonup> ProxyFactory) \<Rightarrow> (string \<rightharpoonup> ProxyFactory)" where
  "setup_safe_proxy_factory decl table =
     (case decl of (address, initial_block) \<Rightarrow>
        snd (get_or_create table address
               \<lparr>initial_block_number = initial_block, tx_block_number = initial_block\<rparr>))"

fun setup_safe_proxy_factories :: "(string \<times> int) list \<Rightarrow> store \<Rightarrow> store" where
  "setup_safe_proxy_factories [] s = s"
| "setup_safe_proxy_factories (decl # rest) s =
     setup_safe_proxy_factories rest
       (s\<lparr>proxy_factories := setup_safe_proxy_factory decl (proxy_factories s)\<rparr>)"

text \<open>The loop of \<open>handle\<close> over the declared tasks, with the line it writes for each.\<close>

fun create_tasks :: "CeleryTaskConfiguration list \<Rightarrow> store \<Rightarrow> store \<times> stdout" where
  "create_tasks [] s = (s, [])"
| "create_tasks (task # rest) s =
     (let ((_, created), s1) = create_task task s;
          line = (if created then (SUCCESS, Created_Periodic_Task (name task))
                  else (SUCCESS, Task_was_already_created (name task)));
          (s2, out) = create_tasks rest s1
      in (s2, line # out))"

text \<open>
  \<open>handle\<close>. The declared tasks and the two tables are module constants in the source;
  here they are arguments, so that the run can be stated for any declaration set, and
  \<open>handle\<close> below is the run on the constants. \<open>net_version\<close> is what the chain client
  answers to \<open>ethereum_client.w3.net.version\<close>: the network identifier, or the error it
  raises. The result is the store as the run leaves it, the lines written, and the
  exception that ended the run, if any: what was written to the store before an
  exception stays written.
\<close>

definition handle_on ::
  "CeleryTaskConfiguration list \<Rightarrow> (string \<rightharpoonup> (string \<times> int \<times> string) list) \<Rightarrow>
   (string \<rightharpoonup> (string \<times> int) list) \<Rightarrow> error + string \<Rightarrow> store \<Rightarrow>
   store \<times> stdout \<times> error option" where
  "handle_on tasks master_copies proxy_factories_decl net_version s =
     (let out0 = [(SUCCESS, Removing_old_tasks)];
          s1 = s\<lparr>periodic_tasks :=
                   delete_startswith ''safe_transaction_service'' (periodic_tasks s)\<rparr>;
          out1 = out0 @ [(SUCCESS, Old_tasks_were_removed)];
          (s2, lines) = create_tasks tasks s1;
          out2 = out1 @ lines @ [(SUCCESS, Setting_up_Safe_Contract_Addresses)]
      in case net_version of
           Inl e \<Rightarrow> (s2, out2, Some e)
         | Inr ethereum_network_id \<Rightarrow>
             (let (s3, out3) =
                    (case master_copies ethereum_network_id of
                       Some decls \<Rightarrow>
                         (setup_safe_master_copies decls s2,
                          out2 @ [(SUCCESS, Setting_up_safe_addresses ethereum_network_id)])
                     | None \<Rightarrow> (s2, out2));
                  (s4, out4) =
                    (case proxy_factories_decl ethereum_network_id of
                       Some decls \<Rightarrow>
                         (setup_safe_proxy_factories decls s3,
                          out3 @ [(SUCCESS,
                                   Setting_up_proxy_factory_addresses ethereum_network_id)])
                     | None \<Rightarrow> (s3, out3));
                  out5 =
                    (if \<not> (ethereum_network_id \<in> dom master_copies
                            \<and> ethereum_network_id \<in> dom proxy_factories_decl)
                     then out4 @ [(WARNING, Cannot_detect_a_valid_ethereum_network)]
                     else out4)
              in (s4, out5, None)))"

definition handle :: "bool \<Rightarrow> error + string \<Rightarrow> store \<Rightarrow> store \<times> stdout \<times> error option" where
  "handle ETH_L2_NETWORK = handle_on (TASKS ETH_L2_NETWORK) MASTER_COPIES PROXY_FACTORIES"

section \<open>Notions used to state the properties\<close>

text \<open>
  The row \<open>create_task\<close> leaves under the name of a declaration: the defaults it hands to
  \<open>get_or_create\<close>, which are also the three values it assigns when the row is there
  already.
\<close>

definition declared_row :: "CeleryTaskConfiguration \<Rightarrow> PeriodicTask" where
  "declared_row d =
     \<lparr>pt_name = description d,
      pt_interval = \<lparr>every = interval d, is_period = period d\<rparr>,
      pt_enabled = enabled d\<rparr>"

text \<open>
  The counts of the report: a task is counted as created for each line
  "Created Periodic Task", and as updated for each line "Task ... was already created".
\<close>

fun is_created :: "style \<times> message \<Rightarrow> bool" where
  "is_created (_, Created_Periodic_Task _) = True"
| "is_created _ = False"

fun is_already_created :: "style \<times> message \<Rightarrow> bool" where
  "is_already_created (_, Task_was_already_created _) = True"
| "is_already_created _ = False"

definition created_count :: "stdout \<Rightarrow> nat" where
  "created_count out = length (filter is_created out)"

definition updated_count :: "stdout \<Rightarrow> nat" where
  "updated_count out = length (filter is_already_created out)"


text \<open>
  A declaration list and a store for the examples: one declared task carries the
  reserved prefix, the other does not and meets a stored row of the same name; the
  store also holds a stale task under the prefix, a master copy whose version and
  initial block differ from the compiled-in declaration, and a proxy factory whose
  initial block differs from it.
\<close>

definition empty_store :: store where
  "empty_store =
     \<lparr>interval_schedules = {}, periodic_tasks = Map.empty,
      safe_master_copies = Map.empty, proxy_factories = Map.empty\<rparr>"

definition example_tasks :: "CeleryTaskConfiguration list" where
  "example_tasks =
     [\<lparr>name = ''safe_transaction_service.history.tasks.check_reorgs_task'',
       description = ''Check Reorgs'', interval = 3, period = MINUTES, enabled = True\<rparr>,
      \<lparr>name = ''other_app.tasks.cleanup'',
       description = ''Cleanup'', interval = 3, period = MINUTES, enabled = False\<rparr>]"

definition example_store :: store where
  "example_store =
     \<lparr>interval_schedules = {},
      periodic_tasks =
        [''other_app.tasks.cleanup'' \<mapsto>
           \<lparr>pt_name = ''Old label'', pt_interval = \<lparr>every = 1, is_period = DAYS\<rparr>,
            pt_enabled = True\<rparr>,
         ''safe_transaction_service.stale_task'' \<mapsto>
           \<lparr>pt_name = ''Stale'', pt_interval = \<lparr>every = 1, is_period = DAYS\<rparr>,
            pt_enabled = True\<rparr>],
      safe_master_copies =
        [''0xd9Db270c1B5E3Bd161E8c8503c55cEABeE709552'' \<mapsto>
           \<lparr>initial_block_number = 100, tx_block_number = 150,
            version = PyStr ''1.2.0'', l2 = False\<rparr>],
      proxy_factories =
        [''0xa6B71E26C5e0845f74c812102Ca7114b6a896AB2'' \<mapsto>
           \<lparr>initial_block_number = 7, tx_block_number = 8\<rparr>]\<rparr>"

section \<open>The steps in closed form\<close>

lemma PeriodicTask_overwrite:
  "(r::PeriodicTask)\<lparr>pt_name := a, pt_interval := b, pt_enabled := c\<rparr> =
     \<lparr>pt_name = a, pt_interval = b, pt_enabled = c\<rparr>"
  by (cases r) simp

lemma create_task_eq:
  "create_task d s =
     ((declared_row d, periodic_tasks s (name d) = None),
      s\<lparr>interval_schedules := insert \<lparr>every = interval d, is_period = period d\<rparr> (interval_schedules s),
        periodic_tasks := (periodic_tasks s)(name d \<mapsto> declared_row d)\<rparr>)"
  by (cases "periodic_tasks s (name d)")
     (simp_all add: create_task_def get_or_create_def get_or_create_schedule_def save_def
        declared_row_def Let_def PeriodicTask_overwrite)

lemma mc_step:
  "setup_safe_master_copy (a, b, v) m =
     m(a \<mapsto> (case m a of
                None \<Rightarrow> \<lparr>initial_block_number = b, tx_block_number = b,
                          version = PyStr v, l2 = endswith v ''+L2''\<rparr>
              | Some r \<Rightarrow> r\<lparr>version := PyStr v\<rparr>))"
  by (cases "m a")
     (auto simp add: setup_safe_master_copy_def get_or_create_def save_update_fields_def Let_def)

lemma pf_step:
  "setup_safe_proxy_factory (a, b) m =
     (case m a of None \<Rightarrow> m(a \<mapsto> \<lparr>initial_block_number = b, tx_block_number = b\<rparr>)
      | Some r \<Rightarrow> m)"
  by (cases "m a") (auto simp add: setup_safe_proxy_factory_def get_or_create_def)


subsection \<open>The task loop\<close>

lemma create_tasks_store:
  "fst (create_tasks ds s) =
     s\<lparr>interval_schedules :=
         interval_schedules s \<union> (\<lambda>d. \<lparr>every = interval d, is_period = period d\<rparr>) ` set ds,
       periodic_tasks :=
         fold (\<lambda>d m. m(name d \<mapsto> declared_row d)) ds (periodic_tasks s)\<rparr>"
  by (induction ds arbitrary: s) (simp_all add: create_task_eq split_beta Let_def)

lemma upsert_fold_add:
  "fold (\<lambda>d m. m(name d \<mapsto> declared_row d)) ds m =
     m ++ fold (\<lambda>d m. m(name d \<mapsto> declared_row d)) ds Map.empty"
proof (induction ds arbitrary: m)
  case Nil
  then show ?case by simp
next
  case (Cons d ds)
  have "fold (\<lambda>d m. m(name d \<mapsto> declared_row d)) (d # ds) m =
          m(name d \<mapsto> declared_row d) ++ fold (\<lambda>d m. m(name d \<mapsto> declared_row d)) ds Map.empty"
    unfolding fold_simps by (rule Cons.IH)
  also have "\<dots> = m ++ ([name d \<mapsto> declared_row d] ++
                 fold (\<lambda>d m. m(name d \<mapsto> declared_row d)) ds Map.empty)"
    by (simp add: map_add_assoc [symmetric])
  also have "\<dots> = m ++ fold (\<lambda>d m. m(name d \<mapsto> declared_row d)) (d # ds) Map.empty"
    unfolding fold_simps using Cons.IH [of "[name d \<mapsto> declared_row d]"] by (simp only:)
  finally show ?case .
qed

lemma upsert_fold_dom:
  "dom (fold (\<lambda>d m. m(name d \<mapsto> declared_row d)) ds m) = dom m \<union> name ` set ds"
  by (induction ds arbitrary: m) auto

lemma upsert_fold_notin:
  "k \<notin> name ` set ds \<Longrightarrow> fold (\<lambda>d m. m(name d \<mapsto> declared_row d)) ds m k = m k"
  by (induction ds arbitrary: m) auto

lemma upsert_fold_distinct:
  "distinct (map name ds) \<Longrightarrow> d \<in> set ds \<Longrightarrow>
     fold (\<lambda>d m. m(name d \<mapsto> declared_row d)) ds m (name d) = Some (declared_row d)"
  by (induction ds arbitrary: m) (auto simp add: upsert_fold_notin)

lemma upsert_fold_idem:
  "fold (\<lambda>d m. m(name d \<mapsto> declared_row d)) ds
     (delete_startswith p (fold (\<lambda>d m. m(name d \<mapsto> declared_row d)) ds (delete_startswith p m))) =
   fold (\<lambda>d m. m(name d \<mapsto> declared_row d)) ds (delete_startswith p m)"
proof -
  let ?D = "fold (\<lambda>d m. m(name d \<mapsto> declared_row d)) ds Map.empty"
  have "delete_startswith p (delete_startswith p m ++ ?D) ++ ?D = delete_startswith p m ++ ?D"
    by (rule ext) (simp add: map_add_def delete_startswith_def split: option.splits)
  then show ?thesis
    using upsert_fold_add [of ds "delete_startswith p m"]
      upsert_fold_add [of ds "delete_startswith p (delete_startswith p m ++ ?D)"]
    by simp
qed


lemma create_task_tasks:
  "periodic_tasks (snd (create_task d s)) = (periodic_tasks s)(name d \<mapsto> declared_row d)"
  by (rule ext) (simp add: create_task_eq)

lemma create_task_created:
  "snd (fst (create_task d s)) = (periodic_tasks s (name d) = None)"
  by (simp add: create_task_eq)

subsection \<open>The lines of the task loop\<close>

lemma create_tasks_created:
  "length (filter is_created (snd (create_tasks ds s))) =
     card (name ` set ds - dom (periodic_tasks s))"
proof (induction ds arbitrary: s)
  case Nil
  then show ?case by simp
next
  case (Cons d ds)
  let ?s1 = "snd (create_task d s)"
  have dom1: "dom (periodic_tasks ?s1) = insert (name d) (dom (periodic_tasks s))"
    by (simp add: create_task_tasks)
  have fin: "finite (name ` set ds - insert (name d) (dom (periodic_tasks s)))"
    by simp
  show ?case
  proof (cases "periodic_tasks s (name d)")
    case None
    then have "name ` set (d # ds) - dom (periodic_tasks s) =
        insert (name d) (name ` set ds - insert (name d) (dom (periodic_tasks s)))"
      by auto
    then have "card (name ` set (d # ds) - dom (periodic_tasks s)) =
        Suc (card (name ` set ds - insert (name d) (dom (periodic_tasks s))))"
      using fin by simp
    then show ?thesis
      using None Cons.IH [of ?s1] dom1 by (simp add: create_task_created split_beta Let_def)
  next
    case (Some r)
    then have "name ` set (d # ds) - dom (periodic_tasks s) =
        name ` set ds - insert (name d) (dom (periodic_tasks s))"
      by auto
    then show ?thesis
      using Some Cons.IH [of ?s1] dom1 by (simp add: create_task_created split_beta Let_def)
  qed
qed

lemma create_tasks_lines:
  "length (filter is_created (snd (create_tasks ds s))) +
   length (filter is_already_created (snd (create_tasks ds s))) = length ds"
  by (induction ds arbitrary: s) (simp_all add: split_beta Let_def)


lemma create_tasks_not_created:
  "periodic_tasks s n \<noteq> None \<Longrightarrow>
     (SUCCESS, Created_Periodic_Task n) \<notin> set (snd (create_tasks ds s))"
  by (induction ds arbitrary: s)
     (auto simp add: split_beta Let_def create_task_created create_task_tasks)

lemma create_tasks_already:
  "periodic_tasks s (name d) \<noteq> None \<Longrightarrow> d \<in> set ds \<Longrightarrow>
     (SUCCESS, Task_was_already_created (name d)) \<in> set (snd (create_tasks ds s))"
proof (induction ds arbitrary: s)
  case Nil
  then show ?case by simp
next
  case (Cons e es)
  show ?case
  proof (cases "name e = name d")
    case True
    with Cons.prems show ?thesis by (auto simp add: split_beta Let_def create_task_created)
  next
    case False
    with Cons.prems have "d \<in> set es" by auto
    moreover have "periodic_tasks (snd (create_task e s)) (name d) \<noteq> None"
      using Cons.prems(1) by (simp add: create_task_tasks)
    ultimately show ?thesis
      using Cons.IH [of "snd (create_task e s)"] by (simp add: split_beta Let_def)
  qed
qed


subsection \<open>Master copies\<close>

lemma setup_safe_master_copies_store:
  "setup_safe_master_copies ds s =
     s\<lparr>safe_master_copies := fold setup_safe_master_copy ds (safe_master_copies s)\<rparr>"
  by (induction ds arbitrary: s) simp_all

lemma mc_fold_notin:
  "a \<notin> fst ` set ds \<Longrightarrow> fold setup_safe_master_copy ds m a = m a"
  by (induction ds arbitrary: m) (auto simp add: mc_step)

lemma mc_fold_Some:
  "m a = Some r \<Longrightarrow>
     fold setup_safe_master_copy ds m a =
       Some (r\<lparr>version :=
                 fold (\<lambda>d w. if fst d = a then PyStr (snd (snd d)) else w) ds (version r)\<rparr>)"
proof (induction ds arbitrary: m r)
  case Nil
  then show ?case by simp
next
  case (Cons d ds)
  obtain a' b v where d: "d = (a', b, v)" by (cases d)
  show ?case
  proof (cases "a' = a")
    case True
    then have "setup_safe_master_copy d m a = Some (r\<lparr>version := PyStr v\<rparr>)"
      using Cons.prems d by (simp add: mc_step)
    then show ?thesis
      using Cons.IH [of "setup_safe_master_copy d m" "r\<lparr>version := PyStr v\<rparr>"] True d
      by simp
  next
    case False
    then have "setup_safe_master_copy d m a = Some r"
      using Cons.prems d by (simp add: mc_step)
    then show ?thesis
      using Cons.IH [of "setup_safe_master_copy d m" r] False d by simp
  qed
qed

lemma declared_version_indep:
  "a \<in> fst ` set ds \<Longrightarrow>
     fold (\<lambda>d w. if fst d = a then PyStr (snd (snd d)) else w) ds w =
     fold (\<lambda>d w. if fst d = a then PyStr (snd (snd d)) else w) ds w'"
  by (induction ds arbitrary: w w') auto

lemma mc_fold_None:
  "m a = None \<Longrightarrow> a \<in> fst ` set ds \<Longrightarrow>
     \<exists>r b v. fold setup_safe_master_copy ds m a = Some r \<and> (a, b, v) \<in> set ds
        \<and> initial_block_number r = b \<and> tx_block_number r = b
        \<and> version r = fold (\<lambda>d w. if fst d = a then PyStr (snd (snd d)) else w) ds w"
proof (induction ds arbitrary: m)
  case Nil
  then show ?case by simp
next
  case (Cons d ds)
  obtain a' b v where d: "d = (a', b, v)" by (cases d)
  show ?case
  proof (cases "a' = a")
    case True
    let ?new = "\<lparr>initial_block_number = b, tx_block_number = b, version = PyStr v,
                 l2 = endswith v ''+L2''\<rparr>"
    have "setup_safe_master_copy d m a = Some ?new"
      using Cons.prems(1) True d by (simp add: mc_step)
    then show ?thesis
      using mc_fold_Some [of "setup_safe_master_copy d m" a ?new ds] True d by auto
  next
    case False
    then have "setup_safe_master_copy d m a = None" and "a \<in> fst ` set ds"
      using Cons.prems d by (auto simp add: mc_step)
    then obtain r b' v' where
      "fold setup_safe_master_copy ds (setup_safe_master_copy d m) a = Some r"
      "(a, b', v') \<in> set ds" "initial_block_number r = b'" "tx_block_number r = b'"
      "version r = fold (\<lambda>d w. if fst d = a then PyStr (snd (snd d)) else w) ds w"
      using Cons.IH [of "setup_safe_master_copy d m"] by blast
    then show ?thesis using False d by auto
  qed
qed

lemma mc_fold_version:
  assumes "a \<in> fst ` set ds"
  shows "\<exists>r. fold setup_safe_master_copy ds m a = Some r
            \<and> version r = fold (\<lambda>d w. if fst d = a then PyStr (snd (snd d)) else w) ds w"
proof (cases "m a")
  case None
  then show ?thesis using mc_fold_None [of m a ds w] assms by blast
next
  case (Some r)
  then show ?thesis
    using mc_fold_Some [of m a r ds] declared_version_indep [OF assms, of "version r" w]
    by simp
qed

lemma mc_fold_idem:
  "fold setup_safe_master_copy ds (fold setup_safe_master_copy ds m) =
   fold setup_safe_master_copy ds m"
proof (rule ext)
  fix a
  show "fold setup_safe_master_copy ds (fold setup_safe_master_copy ds m) a =
        fold setup_safe_master_copy ds m a"
  proof (cases "a \<in> fst ` set ds")
    case False
    then show ?thesis by (simp add: mc_fold_notin)
  next
    case True
    from mc_fold_version [OF True, of m "PyInt 0"] obtain r where
      r: "fold setup_safe_master_copy ds m a = Some r"
         "version r = fold (\<lambda>d w. if fst d = a then PyStr (snd (snd d)) else w) ds (PyInt 0)"
      by blast
    have "fold (\<lambda>d w. if fst d = a then PyStr (snd (snd d)) else w) ds (version r) = version r"
      using declared_version_indep [OF True, of "version r" "PyInt 0"] r(2) by simp
    then show ?thesis
      using mc_fold_Some [of "fold setup_safe_master_copy ds m" a r ds] r(1) by simp
  qed
qed

subsection \<open>Proxy factories\<close>

lemma setup_safe_proxy_factories_store:
  "setup_safe_proxy_factories ds s =
     s\<lparr>proxy_factories := fold setup_safe_proxy_factory ds (proxy_factories s)\<rparr>"
  by (induction ds arbitrary: s) simp_all

lemma pf_fold_Some:
  "m a = Some r \<Longrightarrow> fold setup_safe_proxy_factory ds m a = Some r"
proof (induction ds arbitrary: m)
  case Nil
  then show ?case by simp
next
  case (Cons d ds)
  obtain a' b where d: "d = (a', b)" by (cases d)
  have "setup_safe_proxy_factory d m a = Some r"
    using Cons.prems d by (cases "m a'") (auto simp add: pf_step)
  then show ?case using Cons.IH [of "setup_safe_proxy_factory d m"] by simp
qed

lemma pf_fold_dom:
  "dom (fold setup_safe_proxy_factory ds m) = dom m \<union> fst ` set ds"
proof (induction ds arbitrary: m)
  case Nil
  then show ?case by simp
next
  case (Cons d ds)
  obtain a' b where d: "d = (a', b)" by (cases d)
  have "dom (setup_safe_proxy_factory d m) = insert a' (dom m)"
    using d by (auto simp add: pf_step split: option.splits)
  then show ?case using Cons.IH [of "setup_safe_proxy_factory d m"] d by auto
qed

lemma pf_fold_noop:
  "fst ` set ds \<subseteq> dom m \<Longrightarrow> fold setup_safe_proxy_factory ds m = m"
proof (induction ds arbitrary: m)
  case Nil
  then show ?case by simp
next
  case (Cons d ds)
  obtain a' b where d: "d = (a', b)" by (cases d)
  have "setup_safe_proxy_factory d m = m"
    using Cons.prems d by (auto simp add: pf_step split: option.splits)
  then show ?case using Cons.IH [of m] Cons.prems by simp
qed

lemma pf_fold_idem:
  "fold setup_safe_proxy_factory ds (fold setup_safe_proxy_factory ds m) =
   fold setup_safe_proxy_factory ds m"
  by (rule pf_fold_noop) (simp add: pf_fold_dom)


subsection \<open>The whole run\<close>

lemma handle_on_schedules:
  "interval_schedules (fst (handle_on ds mc pf net s)) =
     interval_schedules s \<union> (\<lambda>d. \<lparr>every = interval d, is_period = period d\<rparr>) ` set ds"
  by (simp add: handle_on_def Let_def split_beta create_tasks_store
        setup_safe_master_copies_store setup_safe_proxy_factories_store
        split: sum.splits option.splits)

lemma handle_on_tasks:
  "periodic_tasks (fst (handle_on ds mc pf net s)) =
     fold (\<lambda>d m. m(name d \<mapsto> declared_row d)) ds
       (delete_startswith ''safe_transaction_service'' (periodic_tasks s))"
  by (simp add: handle_on_def Let_def split_beta create_tasks_store
        setup_safe_master_copies_store setup_safe_proxy_factories_store
        split: sum.splits option.splits)

lemma handle_on_masters:
  "safe_master_copies (fst (handle_on ds mc pf net s)) =
     (case net of
        Inl e \<Rightarrow> safe_master_copies s
      | Inr nid \<Rightarrow>
          (case mc nid of
             None \<Rightarrow> safe_master_copies s
           | Some decls \<Rightarrow> fold setup_safe_master_copy decls (safe_master_copies s)))"
  by (simp add: handle_on_def Let_def split_beta create_tasks_store
        setup_safe_master_copies_store setup_safe_proxy_factories_store
        split: sum.splits option.splits)

lemma handle_on_proxies:
  "proxy_factories (fst (handle_on ds mc pf net s)) =
     (case net of
        Inl e \<Rightarrow> proxy_factories s
      | Inr nid \<Rightarrow>
          (case pf nid of
             None \<Rightarrow> proxy_factories s
           | Some decls \<Rightarrow> fold setup_safe_proxy_factory decls (proxy_factories s)))"
  by (simp add: handle_on_def Let_def split_beta create_tasks_store
        setup_safe_master_copies_store setup_safe_proxy_factories_store
        split: sum.splits option.splits)

lemma handle_on_error:
  "snd (snd (handle_on ds mc pf net s)) = (case net of Inl e \<Rightarrow> Some e | Inr nid \<Rightarrow> None)"
  by (simp add: handle_on_def Let_def split_beta split: sum.splits option.splits)

lemma handle_on_stdout:
  "fst (snd (handle_on ds mc pf net s)) =
     [(SUCCESS, Removing_old_tasks), (SUCCESS, Old_tasks_were_removed)]
     @ snd (create_tasks ds
              (s\<lparr>periodic_tasks :=
                   delete_startswith ''safe_transaction_service'' (periodic_tasks s)\<rparr>))
     @ [(SUCCESS, Setting_up_Safe_Contract_Addresses)]
     @ (case net of
          Inl e \<Rightarrow> []
        | Inr nid \<Rightarrow>
            (case mc nid of None \<Rightarrow> [] | Some decls \<Rightarrow> [(SUCCESS, Setting_up_safe_addresses nid)])
            @ (case pf nid of None \<Rightarrow> []
               | Some decls \<Rightarrow> [(SUCCESS, Setting_up_proxy_factory_addresses nid)])
            @ (if \<not> (nid \<in> dom mc \<and> nid \<in> dom pf)
               then [(WARNING, Cannot_detect_a_valid_ethereum_network)] else []))"
  by (simp add: handle_on_def Let_def split_beta split: sum.splits option.splits)

lemma store_eqI:
  "interval_schedules s = interval_schedules t \<Longrightarrow> periodic_tasks s = periodic_tasks t \<Longrightarrow>
   safe_master_copies s = safe_master_copies t \<Longrightarrow> proxy_factories s = proxy_factories t \<Longrightarrow>
   (s::store) = t"
  by simp

lemma handle_on_idem:
  "fst (handle_on ds mc pf net (fst (handle_on ds mc pf net s))) = fst (handle_on ds mc pf net s)"
proof (rule store_eqI)
  show "interval_schedules (fst (handle_on ds mc pf net (fst (handle_on ds mc pf net s)))) =
        interval_schedules (fst (handle_on ds mc pf net s))"
    by (simp add: handle_on_schedules Un_assoc)
  show "periodic_tasks (fst (handle_on ds mc pf net (fst (handle_on ds mc pf net s)))) =
        periodic_tasks (fst (handle_on ds mc pf net s))"
    by (simp only: handle_on_tasks upsert_fold_idem)
  show "safe_master_copies (fst (handle_on ds mc pf net (fst (handle_on ds mc pf net s)))) =
        safe_master_copies (fst (handle_on ds mc pf net s))"
    by (simp add: handle_on_masters mc_fold_idem split: sum.splits option.splits)
  show "proxy_factories (fst (handle_on ds mc pf net (fst (handle_on ds mc pf net s)))) =
        proxy_factories (fst (handle_on ds mc pf net s))"
    by (simp add: handle_on_proxies pf_fold_idem split: sum.splits option.splits)
qed

subsection \<open>The report and the declared versions\<close>


lemma filter_is_created_stdout:
  "filter is_created (fst (snd (handle_on ds mc pf net s))) =
     filter is_created (snd (create_tasks ds
        (s\<lparr>periodic_tasks :=
             delete_startswith ''safe_transaction_service'' (periodic_tasks s)\<rparr>)))"
  by (simp add: handle_on_stdout split: sum.splits option.splits)

lemma filter_is_already_created_stdout:
  "filter is_already_created (fst (snd (handle_on ds mc pf net s))) =
     filter is_already_created (snd (create_tasks ds
        (s\<lparr>periodic_tasks :=
             delete_startswith ''safe_transaction_service'' (periodic_tasks s)\<rparr>)))"
  by (simp add: handle_on_stdout split: sum.splits option.splits)

lemma handle_on_counts:
  "created_count (fst (snd (handle_on ds mc pf net s))) +
   updated_count (fst (snd (handle_on ds mc pf net s))) = length ds"
  by (simp only: created_count_def updated_count_def filter_is_created_stdout
        filter_is_already_created_stdout create_tasks_lines)

lemma handle_on_created_count:
  "created_count (fst (snd (handle_on ds mc pf net s))) =
     card (name ` set ds -
           {k \<in> dom (periodic_tasks s). \<not> startswith k ''safe_transaction_service''})"
proof -
  have "dom (delete_startswith ''safe_transaction_service'' (periodic_tasks s)) =
        {k \<in> dom (periodic_tasks s). \<not> startswith k ''safe_transaction_service''}"
    by (auto simp add: delete_startswith_def split: if_splits)
  then show ?thesis
    by (simp add: created_count_def filter_is_created_stdout create_tasks_created)
qed

lemma second_run_created_count:
  "created_count (fst (snd (handle_on ds mc pf net (fst (handle_on ds mc pf net s))))) =
     length (remdups (filter (\<lambda>n. startswith n ''safe_transaction_service'') (map name ds)))"
proof -
  let ?P = "''safe_transaction_service''"
  let ?T = "periodic_tasks (fst (handle_on ds mc pf net s))"
  have "name ` set ds \<subseteq> dom ?T"
    by (simp add: handle_on_tasks upsert_fold_dom)
  then have "name ` set ds - {k \<in> dom ?T. \<not> startswith k ?P} =
             set (filter (\<lambda>n. startswith n ?P) (map name ds))"
    by auto
  then show ?thesis
    by (simp only: handle_on_created_count card_set)
qed

lemma TASKS_names:
  "length (remdups (filter (\<lambda>n. startswith n ''safe_transaction_service'')
     (map name (TASKS b)))) = 12"
  by (simp add: TASKS_def startswith_def)

lemma handle_on_lines_already:
  assumes "d \<in> set ds" "\<not> startswith (name d) ''safe_transaction_service''"
    "periodic_tasks s (name d) \<noteq> None"
  shows "(SUCCESS, Task_was_already_created (name d)) \<in> set (fst (snd (handle_on ds mc pf net s)))"
    and "(SUCCESS, Created_Periodic_Task (name d)) \<notin> set (fst (snd (handle_on ds mc pf net s)))"
proof -
  let ?s1 = "s\<lparr>periodic_tasks :=
                 delete_startswith ''safe_transaction_service'' (periodic_tasks s)\<rparr>"
  have kept: "periodic_tasks ?s1 (name d) \<noteq> None"
    using assms(2,3) by (simp add: delete_startswith_def)
  from create_tasks_already [OF kept assms(1)]
  show "(SUCCESS, Task_was_already_created (name d)) \<in> set (fst (snd (handle_on ds mc pf net s)))"
    by (simp add: handle_on_stdout)
  from create_tasks_not_created [OF kept, of ds]
  show "(SUCCESS, Created_Periodic_Task (name d)) \<notin> set (fst (snd (handle_on ds mc pf net s)))"
    by (simp add: handle_on_stdout split: sum.splits option.splits)
qed

lemma declared_version_distinct:
  "distinct (map fst decls) \<Longrightarrow> (a, b, v) \<in> set decls \<Longrightarrow>
     fold (\<lambda>d w. if fst d = a then PyStr (snd (snd d)) else w) decls w = PyStr v"
proof (induction decls arbitrary: w)
  case Nil
  then show ?case by simp
next
  case (Cons d decls)
  show ?case
  proof (cases "d = (a, b, v)")
    case True
    then have "a \<notin> fst ` set decls" using Cons.prems(1) by auto
    then have "fold (\<lambda>d w. if fst d = a then PyStr (snd (snd d)) else w) decls (PyStr v) = PyStr v"
      by (induction decls) auto
    with True show ?thesis by simp
  next
    case False
    with Cons.prems have in_rest: "(a, b, v) \<in> set decls" by auto
    then have "a \<in> fst ` set decls" by force
    then have "fst d \<noteq> a" using Cons.prems(1) by auto
    with Cons.IH [of w] Cons.prems(1) in_rest show ?thesis by simp
  qed
qed

section \<open>The claims\<close>

subsection \<open>C1: drift correction of a master copy\<close>

text \<open>
  C1 asks that, for a stored master copy whose version or initial block differs from
  the declaration, the run leaves both the declared version and the declared initial
  block in the stored row. The run on the compiled-in tables does not: the stored row
  of \<open>example_store\<close> has initial block 100 and version 1.2.0, the declaration has
  9242 and 1.3.0, and after the run the row has version 1.3.0 and still initial
  block 100. The drift branch assigns \<open>initial_block_number\<close> to \<open>version\<close> and never to
  the field of the same name, although it saves that field.
\<close>

theorem drift_keeps_initial_block_number:
  "safe_master_copies (fst (handle False (Inr ''7001'') example_store))
     ''0xd9Db270c1B5E3Bd161E8c8503c55cEABeE709552'' =
   Some \<lparr>initial_block_number = 100, tx_block_number = 150,
         version = PyStr ''1.3.0'', l2 = False\<rparr>"
  by (simp add: handle_def handle_on_masters MASTER_COPIES_def mc_step example_store_def)

subsection \<open>C2: the warning for an unrecognized network\<close>




subsection \<open>C3: running twice\<close>

text \<open>
  C3, as amended: for every declaration set, every answer of the chain client and
  every starting store, a second run leaves the store the first run left. The second
  run does not report zero created tasks: it wipes and creates again every declared
  task whose name has the reserved prefix, so its count of created tasks is the number
  of distinct declared names with the prefix, and the other declarations are the ones
  it reports as already created.
\<close>

theorem second_run_same_store_recreates_tasks:
  "fst (handle_on ds mc pf net (fst (handle_on ds mc pf net s))) = fst (handle_on ds mc pf net s)
   \<and> created_count (fst (snd (handle_on ds mc pf net (fst (handle_on ds mc pf net s))))) =
       length (remdups (filter (\<lambda>n. startswith n ''safe_transaction_service'') (map name ds)))
   \<and> created_count (fst (snd (handle_on ds mc pf net (fst (handle_on ds mc pf net s))))) +
     updated_count (fst (snd (handle_on ds mc pf net (fst (handle_on ds mc pf net s))))) =
       length ds"
  by (intro conjI) (rule handle_on_idem second_run_created_count handle_on_counts)+

text \<open>
  On \<open>example_tasks\<close> the second run creates the one task under the prefix again and
  finds the other one.
\<close>

theorem second_run_same_store_recreates_tasks_witness:
  "fst (handle_on example_tasks MASTER_COPIES PROXY_FACTORIES (Inr ''7001'')
         (fst (handle_on example_tasks MASTER_COPIES PROXY_FACTORIES (Inr ''7001'') example_store))) =
   fst (handle_on example_tasks MASTER_COPIES PROXY_FACTORIES (Inr ''7001'') example_store)
   \<and> created_count (fst (snd (handle_on example_tasks MASTER_COPIES PROXY_FACTORIES (Inr ''7001'')
         (fst (handle_on example_tasks MASTER_COPIES PROXY_FACTORIES (Inr ''7001'') example_store))))) = 1
   \<and> updated_count (fst (snd (handle_on example_tasks MASTER_COPIES PROXY_FACTORIES (Inr ''7001'')
         (fst (handle_on example_tasks MASTER_COPIES PROXY_FACTORIES (Inr ''7001'') example_store))))) = 1"
  using second_run_same_store_recreates_tasks
    [of example_tasks MASTER_COPIES PROXY_FACTORIES "Inr ''7001''" example_store]
  by (simp add: example_tasks_def startswith_def)

text \<open>
  C3 as stated fails on the compiled-in tasks: the second run, on the store the first
  run left from the empty store, reports twelve created tasks and none as already
  created.
\<close>

theorem second_run_creates_twelve_tasks:
  "created_count (fst (snd (handle False (Inr ''7001'')
      (fst (handle False (Inr ''7001'') empty_store))))) = 12
   \<and> updated_count (fst (snd (handle False (Inr ''7001'')
      (fst (handle False (Inr ''7001'') empty_store))))) = 0"
proof -
  let ?out = "fst (snd (handle_on (TASKS False) MASTER_COPIES PROXY_FACTORIES (Inr ''7001'')
      (fst (handle_on (TASKS False) MASTER_COPIES PROXY_FACTORIES (Inr ''7001'') empty_store))))"
  have created: "created_count ?out = 12"
    by (simp only: second_run_created_count TASKS_names)
  have "created_count ?out + updated_count ?out = length (TASKS False)"
    by (rule handle_on_counts)
  then have "updated_count ?out = 0"
    using created by (simp add: TASKS_def)
  with created show ?thesis
    unfolding handle_def by simp
qed

subsection \<open>C4: one task row for each declared name\<close>

text \<open>
  C4: the run first deletes every stored task whose key starts with the reserved
  prefix and then stores the row of each declaration, in the declared order; so, for
  every starting store, the keys of the task table after the run are the keys without
  the prefix it had before and the declared names, each declared name has exactly one
  row (the declared one, when the declared names are distinct), and a declared name
  without the prefix that meets a stored row is reported as already created and not as
  created: the row is overwritten, not added a second time. This holds whatever the
  chain client answers.
\<close>

theorem tasks_wiped_then_one_row_per_declared_name:
  "periodic_tasks (fst (handle_on ds mc pf net s)) =
     fold (\<lambda>d m. m(name d \<mapsto> declared_row d)) ds
       (delete_startswith ''safe_transaction_service'' (periodic_tasks s))
   \<and> dom (periodic_tasks (fst (handle_on ds mc pf net s))) =
       {k \<in> dom (periodic_tasks s). \<not> startswith k ''safe_transaction_service''} \<union> name ` set ds
   \<and> (\<forall>d \<in> set ds. \<exists>!r. periodic_tasks (fst (handle_on ds mc pf net s)) (name d) = Some r)
   \<and> (distinct (map name ds) \<longrightarrow>
        (\<forall>d \<in> set ds. periodic_tasks (fst (handle_on ds mc pf net s)) (name d) = Some (declared_row d)))
   \<and> (\<forall>d \<in> set ds. \<not> startswith (name d) ''safe_transaction_service'' \<longrightarrow>
          periodic_tasks s (name d) \<noteq> None \<longrightarrow>
            (SUCCESS, Task_was_already_created (name d)) \<in> set (fst (snd (handle_on ds mc pf net s)))
            \<and> (SUCCESS, Created_Periodic_Task (name d)) \<notin> set (fst (snd (handle_on ds mc pf net s))))"
proof (intro conjI)
  let ?P = "''safe_transaction_service''"
  show "periodic_tasks (fst (handle_on ds mc pf net s)) =
     fold (\<lambda>d m. m(name d \<mapsto> declared_row d)) ds (delete_startswith ?P (periodic_tasks s))"
    by (rule handle_on_tasks)
  have "dom (delete_startswith ?P (periodic_tasks s)) =
        {k \<in> dom (periodic_tasks s). \<not> startswith k ?P}"
    by (auto simp add: delete_startswith_def split: if_splits)
  then show dom_eq: "dom (periodic_tasks (fst (handle_on ds mc pf net s))) =
       {k \<in> dom (periodic_tasks s). \<not> startswith k ?P} \<union> name ` set ds"
    by (simp only: handle_on_tasks upsert_fold_dom)
  show "\<forall>d \<in> set ds. \<exists>!r. periodic_tasks (fst (handle_on ds mc pf net s)) (name d) = Some r"
  proof
    fix d assume "d \<in> set ds"
    then have "name d \<in> dom (periodic_tasks (fst (handle_on ds mc pf net s)))"
      unfolding dom_eq by simp
    then show "\<exists>!r. periodic_tasks (fst (handle_on ds mc pf net s)) (name d) = Some r"
      by auto
  qed
  show "distinct (map name ds) \<longrightarrow>
        (\<forall>d \<in> set ds. periodic_tasks (fst (handle_on ds mc pf net s)) (name d) = Some (declared_row d))"
    by (simp only: handle_on_tasks) (blast intro: upsert_fold_distinct)
  show "\<forall>d \<in> set ds. \<not> startswith (name d) ?P \<longrightarrow>
          periodic_tasks s (name d) \<noteq> None \<longrightarrow>
            (SUCCESS, Task_was_already_created (name d)) \<in> set (fst (snd (handle_on ds mc pf net s)))
            \<and> (SUCCESS, Created_Periodic_Task (name d)) \<notin> set (fst (snd (handle_on ds mc pf net s)))"
    using handle_on_lines_already by blast
qed

text \<open>
  In \<open>example_store\<close> the declared cleanup task meets a stored row and the stale task
  under the prefix is not declared.
\<close>

theorem tasks_wiped_then_one_row_per_declared_name_witness:
  "periodic_tasks (fst (handle_on example_tasks MASTER_COPIES PROXY_FACTORIES (Inr ''7001'') example_store))
      ''other_app.tasks.cleanup'' =
     Some \<lparr>pt_name = ''Cleanup'', pt_interval = \<lparr>every = 3, is_period = MINUTES\<rparr>,
           pt_enabled = False\<rparr>
   \<and> periodic_tasks (fst (handle_on example_tasks MASTER_COPIES PROXY_FACTORIES (Inr ''7001'') example_store))
      ''safe_transaction_service.stale_task'' = None
   \<and> (SUCCESS, Task_was_already_created ''other_app.tasks.cleanup'')
        \<in> set (fst (snd (handle_on example_tasks MASTER_COPIES PROXY_FACTORIES (Inr ''7001'') example_store)))
   \<and> (SUCCESS, Created_Periodic_Task ''other_app.tasks.cleanup'')
        \<notin> set (fst (snd (handle_on example_tasks MASTER_COPIES PROXY_FACTORIES (Inr ''7001'') example_store)))"
proof -
  let ?run = "handle_on example_tasks MASTER_COPIES PROXY_FACTORIES (Inr ''7001'') example_store"
  note inst = tasks_wiped_then_one_row_per_declared_name
    [of example_tasks MASTER_COPIES PROXY_FACTORIES "Inr ''7001''" example_store]
  note dom_eq = inst [THEN conjunct2, THEN conjunct1]
  note rows = inst [THEN conjunct2, THEN conjunct2, THEN conjunct2, THEN conjunct1]
  note collide = inst [THEN conjunct2, THEN conjunct2, THEN conjunct2, THEN conjunct2]
  have row: "periodic_tasks (fst ?run) ''other_app.tasks.cleanup'' =
     Some \<lparr>pt_name = ''Cleanup'', pt_interval = \<lparr>every = 3, is_period = MINUTES\<rparr>,
           pt_enabled = False\<rparr>"
    using rows by (simp add: example_tasks_def declared_row_def)
  have "''safe_transaction_service.stale_task'' \<notin> dom (periodic_tasks (fst ?run))"
    unfolding dom_eq by (simp add: example_tasks_def example_store_def startswith_def)
  then have stale: "periodic_tasks (fst ?run) ''safe_transaction_service.stale_task'' = None"
    by auto
  have lines: "(SUCCESS, Task_was_already_created ''other_app.tasks.cleanup'') \<in> set (fst (snd ?run))
      \<and> (SUCCESS, Created_Periodic_Task ''other_app.tasks.cleanup'') \<notin> set (fst (snd ?run))"
    using collide by (simp add: example_tasks_def example_store_def startswith_def)
  show ?thesis using row stale lines by simp
qed

subsection \<open>C5: a stored proxy factory is left alone\<close>

text \<open>
  C5: a proxy factory that is stored under an address is the same row after
  \<open>_setup_safe_proxy_factories\<close> on any declarations, and after the whole run on any
  tables and any answer of the chain client, also when a declaration for that address
  has another initial block.
\<close>

theorem stored_proxy_factory_unchanged:
  "proxy_factories s a = Some r \<Longrightarrow>
     proxy_factories (setup_safe_proxy_factories decls s) a = Some r
     \<and> proxy_factories (fst (handle_on ds mc pf net s)) a = Some r"
  by (simp add: setup_safe_proxy_factories_store handle_on_proxies pf_fold_Some
        split: sum.splits option.splits)

text \<open>The stored factory has initial block 7, the declaration 9223.\<close>

theorem stored_proxy_factory_unchanged_witness:
  "proxy_factories (setup_safe_proxy_factories [(''0xa6B71E26C5e0845f74c812102Ca7114b6a896AB2'', 9223)]
       example_store) ''0xa6B71E26C5e0845f74c812102Ca7114b6a896AB2'' =
     Some \<lparr>initial_block_number = 7, tx_block_number = 8\<rparr>
   \<and> proxy_factories (fst (handle False (Inr ''7001'') example_store))
       ''0xa6B71E26C5e0845f74c812102Ca7114b6a896AB2'' =
     Some \<lparr>initial_block_number = 7, tx_block_number = 8\<rparr>"
  unfolding handle_def
  using stored_proxy_factory_unchanged
    [of example_store "''0xa6B71E26C5e0845f74c812102Ca7114b6a896AB2''"
        "\<lparr>initial_block_number = 7, tx_block_number = 8\<rparr>"
        "[(''0xa6B71E26C5e0845f74c812102Ca7114b6a896AB2'', 9223)]"
        "TASKS False" MASTER_COPIES PROXY_FACTORIES "Inr ''7001''"]
  by (simp add: example_store_def)

subsection \<open>C6: the last synced block and the L2 flag of a master copy\<close>

text \<open>
  C6: a master copy that is stored before the run has the same \<open>tx_block_number\<close> and
  the same \<open>l2\<close> after it, whether or not the drift branch ran; and a master copy that
  the run created has its \<open>tx_block_number\<close> equal to its initial block, the one of a
  declaration for its address in the list of the network.
\<close>

theorem stored_master_copy_keeps_tx_block_number_and_l2:
  "(safe_master_copies s a = Some r \<longrightarrow>
      (\<exists>r'. safe_master_copies (fst (handle_on ds mc pf net s)) a = Some r'
         \<and> tx_block_number r' = tx_block_number r \<and> l2 r' = l2 r))
   \<and> (safe_master_copies s a = None \<longrightarrow>
        safe_master_copies (fst (handle_on ds mc pf net s)) a = Some r' \<longrightarrow>
          tx_block_number r' = initial_block_number r'
          \<and> (\<exists>nid decls v. net = Inr nid \<and> mc nid = Some decls
                \<and> (a, tx_block_number r', v) \<in> set decls))"
proof (intro conjI impI)
  assume "safe_master_copies s a = Some r"
  then show "\<exists>r'. safe_master_copies (fst (handle_on ds mc pf net s)) a = Some r'
         \<and> tx_block_number r' = tx_block_number r \<and> l2 r' = l2 r"
    by (simp add: handle_on_masters mc_fold_Some split: sum.splits option.splits)
next
  assume none: "safe_master_copies s a = None"
    and some: "safe_master_copies (fst (handle_on ds mc pf net s)) a = Some r'"
  from none some obtain nid decls where run: "net = Inr nid" "mc nid = Some decls"
    and fold: "fold setup_safe_master_copy decls (safe_master_copies s) a = Some r'"
    by (auto simp add: handle_on_masters split: sum.splits option.splits)
  have "a \<in> fst ` set decls"
    using none fold mc_fold_notin [of a decls "safe_master_copies s"] by auto
  with none fold mc_fold_None [of "safe_master_copies s" a decls "PyInt 0"]
  obtain b v where "(a, b, v) \<in> set decls" "initial_block_number r' = b" "tx_block_number r' = b"
    by auto
  with run show "tx_block_number r' = initial_block_number r'"
    and "\<exists>nid decls v. net = Inr nid \<and> mc nid = Some decls \<and> (a, tx_block_number r', v) \<in> set decls"
    by auto
qed

text \<open>
  The first compiled-in master copy is stored in \<open>example_store\<close> with
  \<open>tx_block_number\<close> 150; the second one is created by the run.
\<close>

theorem stored_master_copy_keeps_tx_block_number_and_l2_witness:
  "(\<exists>r'. safe_master_copies (fst (handle False (Inr ''7001'') example_store))
            ''0xd9Db270c1B5E3Bd161E8c8503c55cEABeE709552'' = Some r'
         \<and> tx_block_number r' = 150 \<and> l2 r' = False)
   \<and> (\<exists>r'. safe_master_copies (fst (handle False (Inr ''7001'') example_store))
            ''0x3E5c63644E683549055b9Be8653de26E0B4CD36E'' = Some r'
         \<and> tx_block_number r' = 9239 \<and> initial_block_number r' = 9239)"
proof -
  let ?run = "handle_on (TASKS False) MASTER_COPIES PROXY_FACTORIES (Inr ''7001'') example_store"
  let ?old = "\<lparr>initial_block_number = 100, tx_block_number = 150,
               version = PyStr ''1.2.0'', l2 = False\<rparr>"
  let ?new = "\<lparr>initial_block_number = 9239, tx_block_number = 9239,
               version = PyStr ''1.3.0+L2'', l2 = True\<rparr>"
  have created: "safe_master_copies (fst ?run) ''0x3E5c63644E683549055b9Be8653de26E0B4CD36E'' =
      Some ?new"
    by (simp add: handle_on_masters MASTER_COPIES_def mc_step example_store_def endswith_def
          suffix_to_prefix)
  have stored: "\<exists>r'. safe_master_copies (fst ?run) ''0xd9Db270c1B5E3Bd161E8c8503c55cEABeE709552'' = Some r'
         \<and> tx_block_number r' = 150 \<and> l2 r' = False"
    using stored_master_copy_keeps_tx_block_number_and_l2
      [of example_store "''0xd9Db270c1B5E3Bd161E8c8503c55cEABeE709552''" ?old
          "TASKS False" MASTER_COPIES PROXY_FACTORIES "Inr ''7001''"]
    by (simp add: example_store_def)
  have "tx_block_number ?new = initial_block_number ?new"
    using created stored_master_copy_keeps_tx_block_number_and_l2
      [of example_store "''0x3E5c63644E683549055b9Be8653de26E0B4CD36E''" ?old
          "TASKS False" MASTER_COPIES PROXY_FACTORIES "Inr ''7001''" ?new]
    by (simp add: example_store_def)
  with created stored show ?thesis unfolding handle_def by simp
qed

subsection \<open>C7: the chain client cannot be reached\<close>

text \<open>
  C7: when the query of the network identifier fails with a \<open>ConnectivityError\<close>, the
  task reconciliation is complete all the same: the task table is the declared rows
  stored in the declared order over the table without the keys under the reserved
  prefix, so its keys are the old keys without the prefix and the declared names, each
  declared name has its declared row when the names are distinct, the schedule of
  every declaration is stored, and every declaration has its line in the report. This
  is the table the loop of \<open>handle\<close> leaves on the wiped store, and the same task table and
  the same schedules as in a run where the query succeeds. The two registries are as
  before, and the run ends with that error. When the query succeeds, each registry is
  what its reconciliation leaves, for a network that its table declares, and as before
  otherwise.
\<close>

theorem connectivity_error_tasks_done_registry_untouched:
  "periodic_tasks (fst (handle_on ds mc pf (Inl ConnectivityError) s)) =
     fold (\<lambda>d m. m(name d \<mapsto> declared_row d)) ds
       (delete_startswith ''safe_transaction_service'' (periodic_tasks s))
   \<and> dom (periodic_tasks (fst (handle_on ds mc pf (Inl ConnectivityError) s))) =
       {k \<in> dom (periodic_tasks s). \<not> startswith k ''safe_transaction_service''} \<union> name ` set ds
   \<and> (distinct (map name ds) \<longrightarrow>
        (\<forall>d \<in> set ds.
           periodic_tasks (fst (handle_on ds mc pf (Inl ConnectivityError) s)) (name d) =
             Some (declared_row d)))
   \<and> interval_schedules (fst (handle_on ds mc pf (Inl ConnectivityError) s)) =
       interval_schedules s \<union> (\<lambda>d. \<lparr>every = interval d, is_period = period d\<rparr>) ` set ds
   \<and> created_count (fst (snd (handle_on ds mc pf (Inl ConnectivityError) s))) +
     updated_count (fst (snd (handle_on ds mc pf (Inl ConnectivityError) s))) = length ds
   \<and> periodic_tasks (fst (handle_on ds mc pf (Inl ConnectivityError) s)) =
     periodic_tasks (fst (create_tasks ds
       (s\<lparr>periodic_tasks :=
            delete_startswith ''safe_transaction_service'' (periodic_tasks s)\<rparr>)))
   \<and> periodic_tasks (fst (handle_on ds mc pf (Inl ConnectivityError) s)) =
       periodic_tasks (fst (handle_on ds mc pf (Inr nid) s))
   \<and> interval_schedules (fst (handle_on ds mc pf (Inl ConnectivityError) s)) =
       interval_schedules (fst (handle_on ds mc pf (Inr nid) s))
   \<and> safe_master_copies (fst (handle_on ds mc pf (Inl ConnectivityError) s)) = safe_master_copies s
   \<and> proxy_factories (fst (handle_on ds mc pf (Inl ConnectivityError) s)) = proxy_factories s
   \<and> snd (snd (handle_on ds mc pf (Inl ConnectivityError) s)) = Some ConnectivityError
   \<and> safe_master_copies (fst (handle_on ds mc pf (Inr nid) s)) =
       (case mc nid of None \<Rightarrow> safe_master_copies s
        | Some decls \<Rightarrow> safe_master_copies (setup_safe_master_copies decls s))
   \<and> proxy_factories (fst (handle_on ds mc pf (Inr nid) s)) =
       (case pf nid of None \<Rightarrow> proxy_factories s
        | Some decls \<Rightarrow> proxy_factories (setup_safe_proxy_factories decls s))"
proof -
  let ?P = "''safe_transaction_service''"
  let ?fail = "handle_on ds mc pf (Inl ConnectivityError) s"
  have table: "periodic_tasks (fst ?fail) =
     fold (\<lambda>d m. m(name d \<mapsto> declared_row d)) ds (delete_startswith ?P (periodic_tasks s))"
    by (rule handle_on_tasks)
  have "dom (delete_startswith ?P (periodic_tasks s)) =
        {k \<in> dom (periodic_tasks s). \<not> startswith k ?P}"
    by (auto simp add: delete_startswith_def split: if_splits)
  then have keys: "dom (periodic_tasks (fst ?fail)) =
       {k \<in> dom (periodic_tasks s). \<not> startswith k ?P} \<union> name ` set ds"
    by (simp only: table upsert_fold_dom)
  have rows: "distinct (map name ds) \<longrightarrow>
        (\<forall>d \<in> set ds. periodic_tasks (fst ?fail) (name d) = Some (declared_row d))"
    by (simp only: table) (blast intro: upsert_fold_distinct)
  have schedules: "interval_schedules (fst ?fail) =
       interval_schedules s \<union> (\<lambda>d. \<lparr>every = interval d, is_period = period d\<rparr>) ` set ds"
    by (rule handle_on_schedules)
  have lines: "created_count (fst (snd ?fail)) + updated_count (fst (snd ?fail)) = length ds"
    by (rule handle_on_counts)
  have rest: "periodic_tasks (fst ?fail) =
     periodic_tasks (fst (create_tasks ds
       (s\<lparr>periodic_tasks := delete_startswith ?P (periodic_tasks s)\<rparr>)))
   \<and> periodic_tasks (fst ?fail) = periodic_tasks (fst (handle_on ds mc pf (Inr nid) s))
   \<and> interval_schedules (fst ?fail) = interval_schedules (fst (handle_on ds mc pf (Inr nid) s))
   \<and> safe_master_copies (fst ?fail) = safe_master_copies s
   \<and> proxy_factories (fst ?fail) = proxy_factories s
   \<and> snd (snd ?fail) = Some ConnectivityError
   \<and> safe_master_copies (fst (handle_on ds mc pf (Inr nid) s)) =
       (case mc nid of None \<Rightarrow> safe_master_copies s
        | Some decls \<Rightarrow> safe_master_copies (setup_safe_master_copies decls s))
   \<and> proxy_factories (fst (handle_on ds mc pf (Inr nid) s)) =
       (case pf nid of None \<Rightarrow> proxy_factories s
        | Some decls \<Rightarrow> proxy_factories (setup_safe_proxy_factories decls s))"
    by (simp add: handle_on_tasks handle_on_schedules handle_on_masters handle_on_proxies
          handle_on_error create_tasks_store setup_safe_master_copies_store
          setup_safe_proxy_factories_store split: option.splits)
  from table keys rows schedules lines rest show ?thesis
    by (intro conjI) (elim conjE, assumption)+
qed

text \<open>
  From \<open>example_store\<close> the failed run stores both declared tasks, drops the stale one,
  stores the schedule of 3 minutes, and leaves the master copy and the proxy factory.
\<close>

theorem connectivity_error_tasks_done_registry_untouched_witness:
  "periodic_tasks (fst (handle_on example_tasks MASTER_COPIES PROXY_FACTORIES (Inl ConnectivityError) example_store))
      ''safe_transaction_service.history.tasks.check_reorgs_task'' =
     Some \<lparr>pt_name = ''Check Reorgs'', pt_interval = \<lparr>every = 3, is_period = MINUTES\<rparr>,
           pt_enabled = True\<rparr>
   \<and> periodic_tasks (fst (handle_on example_tasks MASTER_COPIES PROXY_FACTORIES (Inl ConnectivityError) example_store))
      ''other_app.tasks.cleanup'' =
     Some \<lparr>pt_name = ''Cleanup'', pt_interval = \<lparr>every = 3, is_period = MINUTES\<rparr>,
           pt_enabled = False\<rparr>
   \<and> periodic_tasks (fst (handle_on example_tasks MASTER_COPIES PROXY_FACTORIES (Inl ConnectivityError) example_store))
      ''safe_transaction_service.stale_task'' = None
   \<and> interval_schedules (fst (handle_on example_tasks MASTER_COPIES PROXY_FACTORIES (Inl ConnectivityError) example_store))
       = {\<lparr>every = 3, is_period = MINUTES\<rparr>}
   \<and> safe_master_copies (fst (handle_on example_tasks MASTER_COPIES PROXY_FACTORIES (Inl ConnectivityError) example_store))
       = safe_master_copies example_store
   \<and> proxy_factories (fst (handle_on example_tasks MASTER_COPIES PROXY_FACTORIES (Inl ConnectivityError) example_store))
       = proxy_factories example_store
   \<and> snd (snd (handle_on example_tasks MASTER_COPIES PROXY_FACTORIES (Inl ConnectivityError) example_store))
       = Some ConnectivityError"
proof -
  let ?fail = "handle_on example_tasks MASTER_COPIES PROXY_FACTORIES (Inl ConnectivityError) example_store"
  note inst = connectivity_error_tasks_done_registry_untouched
    [of example_tasks MASTER_COPIES PROXY_FACTORIES example_store "''7001''"]
  note keys = inst [THEN conjunct2, THEN conjunct1]
  note rows = inst [THEN conjunct2, THEN conjunct2, THEN conjunct1]
  note schedules = inst [THEN conjunct2, THEN conjunct2, THEN conjunct2, THEN conjunct1]
  note rest = inst [THEN conjunct2, THEN conjunct2, THEN conjunct2, THEN conjunct2,
    THEN conjunct2, THEN conjunct2, THEN conjunct2, THEN conjunct2]
  have declared: "periodic_tasks (fst ?fail)
      ''safe_transaction_service.history.tasks.check_reorgs_task'' =
     Some \<lparr>pt_name = ''Check Reorgs'', pt_interval = \<lparr>every = 3, is_period = MINUTES\<rparr>,
           pt_enabled = True\<rparr>"
    "periodic_tasks (fst ?fail) ''other_app.tasks.cleanup'' =
     Some \<lparr>pt_name = ''Cleanup'', pt_interval = \<lparr>every = 3, is_period = MINUTES\<rparr>,
           pt_enabled = False\<rparr>"
    using rows by (simp_all add: example_tasks_def declared_row_def)
  have "''safe_transaction_service.stale_task'' \<notin> dom (periodic_tasks (fst ?fail))"
    unfolding keys by (simp add: example_tasks_def example_store_def startswith_def)
  then have stale: "periodic_tasks (fst ?fail) ''safe_transaction_service.stale_task'' = None"
    by auto
  have sched: "interval_schedules (fst ?fail) = {\<lparr>every = 3, is_period = MINUTES\<rparr>}"
    unfolding schedules by (simp add: example_tasks_def example_store_def)
  show ?thesis
    using declared stale sched rest by simp
qed

subsection \<open>C8: one schedule row for each interval\<close>

text \<open>
  C8: two declared tasks with the same interval value and unit resolve to the same
  schedule row: \<open>create_task\<close> hands back a task that refers to the row of that pair for
  either of them, in whatever store it runs; after the run that row is stored and is
  the only stored row of the pair, and a further get-or-create of the pair finds it and
  creates nothing. When the declared names are distinct, the stored tasks of the two
  declarations refer to that row.
\<close>

theorem same_interval_same_schedule_row:
  assumes "d1 \<in> set ds" "d2 \<in> set ds" "interval d1 = interval d2" "period d1 = period d2"
  shows "\<lparr>every = interval d1, is_period = period d1\<rparr>
           \<in> interval_schedules (fst (handle_on ds mc pf net s))
         \<and> card {row \<in> interval_schedules (fst (handle_on ds mc pf net s)).
                   every row = interval d1 \<and> is_period row = period d1} = 1
         \<and> pt_interval (fst (fst (create_task d1 sa))) =
             \<lparr>every = interval d1, is_period = period d1\<rparr>
         \<and> pt_interval (fst (fst (create_task d2 sb))) =
             \<lparr>every = interval d1, is_period = period d1\<rparr>
         \<and> get_or_create_schedule (interval_schedules (fst (handle_on ds mc pf net s)))
               (interval d2) (period d2) =
             ((\<lparr>every = interval d1, is_period = period d1\<rparr>, False),
              interval_schedules (fst (handle_on ds mc pf net s)))
         \<and> (distinct (map name ds) \<longrightarrow>
              (\<exists>r1 r2. periodic_tasks (fst (handle_on ds mc pf net s)) (name d1) = Some r1
                 \<and> periodic_tasks (fst (handle_on ds mc pf net s)) (name d2) = Some r2
                 \<and> pt_interval r1 = \<lparr>every = interval d1, is_period = period d1\<rparr>
                 \<and> pt_interval r2 = \<lparr>every = interval d1, is_period = period d1\<rparr>))"
proof -
  let ?s' = "fst (handle_on ds mc pf net s)"
  let ?row = "\<lparr>every = interval d1, is_period = period d1\<rparr>"
  have stored: "?row \<in> interval_schedules ?s'"
    using assms(1) by (auto simp add: handle_on_schedules)
  have "{r \<in> interval_schedules ?s'. every r = interval d1 \<and> is_period r = period d1} = {?row}"
    using stored by auto
  then have one: "card {r \<in> interval_schedules ?s'.
                     every r = interval d1 \<and> is_period r = period d1} = 1"
    by simp
  have resolved: "pt_interval (fst (fst (create_task d1 sa))) = ?row"
    "pt_interval (fst (fst (create_task d2 sb))) = ?row"
    using assms(3,4) by (simp_all add: create_task_eq declared_row_def)
  have again: "get_or_create_schedule (interval_schedules ?s') (interval d2) (period d2) =
        ((?row, False), interval_schedules ?s')"
    using stored assms(3,4) by (simp add: get_or_create_schedule_def insert_absorb)
  have tasks: "\<exists>r1 r2. periodic_tasks ?s' (name d1) = Some r1
                 \<and> periodic_tasks ?s' (name d2) = Some r2
                 \<and> pt_interval r1 = ?row \<and> pt_interval r2 = ?row"
    if names: "distinct (map name ds)"
  proof -
    have "periodic_tasks ?s' (name d1) = Some (declared_row d1)"
      and "periodic_tasks ?s' (name d2) = Some (declared_row d2)"
      using names assms(1,2) by (simp_all only: handle_on_tasks upsert_fold_distinct)
    moreover have "pt_interval (declared_row d1) = ?row" "pt_interval (declared_row d2) = ?row"
      using assms(3,4) by (simp_all add: declared_row_def)
    ultimately show ?thesis by simp
  qed
  show ?thesis
    using stored one resolved again tasks by simp
qed

text \<open>The two declarations of \<open>example_tasks\<close> both run every 3 minutes.\<close>

theorem same_interval_same_schedule_row_witness:
  "\<lparr>every = 3, is_period = MINUTES\<rparr> \<in> interval_schedules
       (fst (handle_on example_tasks MASTER_COPIES PROXY_FACTORIES (Inr ''7001'') example_store))
   \<and> (\<exists>r1 r2.
        periodic_tasks (fst (handle_on example_tasks MASTER_COPIES PROXY_FACTORIES (Inr ''7001'') example_store))
          ''safe_transaction_service.history.tasks.check_reorgs_task'' = Some r1
      \<and> periodic_tasks (fst (handle_on example_tasks MASTER_COPIES PROXY_FACTORIES (Inr ''7001'') example_store))
          ''other_app.tasks.cleanup'' = Some r2
      \<and> pt_interval r1 = \<lparr>every = 3, is_period = MINUTES\<rparr>
      \<and> pt_interval r2 = \<lparr>every = 3, is_period = MINUTES\<rparr>)"
proof -
  let ?d1 = "\<lparr>name = ''safe_transaction_service.history.tasks.check_reorgs_task'',
       description = ''Check Reorgs'', interval = 3, period = MINUTES, enabled = True\<rparr>"
  let ?d2 = "\<lparr>name = ''other_app.tasks.cleanup'',
       description = ''Cleanup'', interval = 3, period = MINUTES, enabled = False\<rparr>"
  have declared: "?d1 \<in> set example_tasks" "?d2 \<in> set example_tasks"
    "interval ?d1 = interval ?d2" "period ?d1 = period ?d2"
    by (simp_all add: example_tasks_def)
  have names: "distinct (map name example_tasks)"
    by (simp add: example_tasks_def)
  from same_interval_same_schedule_row
    [OF declared, of MASTER_COPIES PROXY_FACTORIES "Inr ''7001''" example_store
       example_store example_store]
    names
  show ?thesis by simp
qed

subsection \<open>C9: what the drift branch saves\<close>

text \<open>
  C9: when a master copy is stored and its version or its initial block differs from
  the declaration, the step for that declaration leaves the stored row with the
  declared version string in \<open>version\<close> (not the integer assigned to it in between) and
  with every other field as it was, the initial block among them. So does the whole
  run, when the addresses declared for the network are distinct.
\<close>

theorem drift_branch_writes_version_only:
  "(table a = Some r \<longrightarrow> version r \<noteq> PyStr v \<or> initial_block_number r \<noteq> b \<longrightarrow>
      setup_safe_master_copy (a, b, v) table a = Some (r\<lparr>version := PyStr v\<rparr>))
   \<and> (safe_master_copies s a = Some r \<longrightarrow>
        version r \<noteq> PyStr v \<or> initial_block_number r \<noteq> b \<longrightarrow>
        mc nid = Some decls \<longrightarrow> distinct (map fst decls) \<longrightarrow> (a, b, v) \<in> set decls \<longrightarrow>
          (\<exists>r'. safe_master_copies (fst (handle_on ds mc pf (Inr nid) s)) a = Some r'
             \<and> version r' = PyStr v
             \<and> initial_block_number r' = initial_block_number r))"
proof (intro conjI impI)
  assume "table a = Some r"
  then show "setup_safe_master_copy (a, b, v) table a = Some (r\<lparr>version := PyStr v\<rparr>)"
    by (simp add: mc_step)
next
  assume "safe_master_copies s a = Some r" "mc nid = Some decls"
    "distinct (map fst decls)" "(a, b, v) \<in> set decls"
  then show "\<exists>r'. safe_master_copies (fst (handle_on ds mc pf (Inr nid) s)) a = Some r'
             \<and> version r' = PyStr v
             \<and> initial_block_number r' = initial_block_number r"
    by (simp add: handle_on_masters mc_fold_Some declared_version_distinct)
qed

text \<open>
  The stored master copy of \<open>example_store\<close> has version 1.2.0 and initial block 100,
  the declaration 1.3.0 and 9242.
\<close>

theorem drift_branch_writes_version_only_witness:
  "setup_safe_master_copy (''0xd9Db270c1B5E3Bd161E8c8503c55cEABeE709552'', 9242, ''1.3.0'')
      (safe_master_copies example_store) ''0xd9Db270c1B5E3Bd161E8c8503c55cEABeE709552'' =
     Some \<lparr>initial_block_number = 100, tx_block_number = 150,
           version = PyStr ''1.3.0'', l2 = False\<rparr>
   \<and> (\<exists>r'. safe_master_copies (fst (handle False (Inr ''7001'') example_store))
              ''0xd9Db270c1B5E3Bd161E8c8503c55cEABeE709552'' = Some r'
          \<and> version r' = PyStr ''1.3.0'' \<and> initial_block_number r' = 100)"
  unfolding handle_def
  using drift_branch_writes_version_only
    [of "safe_master_copies example_store" "''0xd9Db270c1B5E3Bd161E8c8503c55cEABeE709552''"
        "\<lparr>initial_block_number = 100, tx_block_number = 150,
          version = PyStr ''1.2.0'', l2 = False\<rparr>"
        "''1.3.0''" 9242 example_store MASTER_COPIES "''7001''"
        "[(''0xd9Db270c1B5E3Bd161E8c8503c55cEABeE709552'', 9242, ''1.3.0''),
          (''0x3E5c63644E683549055b9Be8653de26E0B4CD36E'', 9239, ''1.3.0+L2'')]"
        "TASKS False" PROXY_FACTORIES]
  by (simp add: example_store_def MASTER_COPIES_def)

subsection \<open>C10: \<open>create_task\<close> on a stored row\<close>

text \<open>
  C10: after \<open>create_task\<close> the row stored under the declared name has the declared
  label, the schedule row of the declared interval and the declared enabled flag,
  whatever was stored under that name before, and this is also the task handed back;
  when a row was stored under the name, \<open>created\<close> is false; the rows under other names
  are as before.
\<close>

theorem create_task_overwrites_existing_row:
  "periodic_tasks (snd (create_task d s)) (name d) =
     Some \<lparr>pt_name = description d,
           pt_interval = \<lparr>every = interval d, is_period = period d\<rparr>,
           pt_enabled = enabled d\<rparr>
   \<and> fst (fst (create_task d s)) =
       \<lparr>pt_name = description d,
        pt_interval = \<lparr>every = interval d, is_period = period d\<rparr>,
        pt_enabled = enabled d\<rparr>
   \<and> (periodic_tasks s (name d) = Some r \<longrightarrow> \<not> snd (fst (create_task d s)))
   \<and> (\<forall>k. k \<noteq> name d \<longrightarrow> periodic_tasks (snd (create_task d s)) k = periodic_tasks s k)"
  by (simp add: create_task_eq declared_row_def)

text \<open>The cleanup task is stored in \<open>example_store\<close> with another label and schedule.\<close>

theorem create_task_overwrites_existing_row_witness:
  "periodic_tasks (snd (create_task
       \<lparr>name = ''other_app.tasks.cleanup'', description = ''Cleanup'', interval = 3,
        period = MINUTES, enabled = False\<rparr> example_store)) ''other_app.tasks.cleanup'' =
     Some \<lparr>pt_name = ''Cleanup'', pt_interval = \<lparr>every = 3, is_period = MINUTES\<rparr>,
           pt_enabled = False\<rparr>
   \<and> \<not> snd (fst (create_task
       \<lparr>name = ''other_app.tasks.cleanup'', description = ''Cleanup'', interval = 3,
        period = MINUTES, enabled = False\<rparr> example_store))
   \<and> periodic_tasks (snd (create_task
       \<lparr>name = ''other_app.tasks.cleanup'', description = ''Cleanup'', interval = 3,
        period = MINUTES, enabled = False\<rparr> example_store)) ''safe_transaction_service.stale_task'' =
     Some \<lparr>pt_name = ''Stale'', pt_interval = \<lparr>every = 1, is_period = DAYS\<rparr>,
           pt_enabled = True\<rparr>"
  using create_task_overwrites_existing_row
    [of "\<lparr>name = ''other_app.tasks.cleanup'', description = ''Cleanup'', interval = 3,
          period = MINUTES, enabled = False\<rparr>" example_store
        "\<lparr>pt_name = ''Old label'', pt_interval = \<lparr>every = 1, is_period = DAYS\<rparr>,
          pt_enabled = True\<rparr>"]
  by (simp add: example_store_def)

end
